theory Spec2Isabelle
  imports Main "HOL-Library.Word"
begin

unbundle bit_operations_syntax

section \<open>JavaScript values used by utils.js\<close>

text \<open>
  The numbers that flow through \<open>nextRandom\<close> and \<open>iterateDataKey\<close> are integers
  (character codes and the results of the 32-bit bitwise operators) or \<open>NaN\<close>
  (\<open>''''.charCodeAt(0)\<close>). An integer-valued number is modelled by its value.
\<close>

datatype jsnum = NaN | Num int

text \<open>Exceptions are values. \<open>Thrown\<close> stands for any value thrown by host or page code.\<close>

datatype error = TypeError | SyntaxError | Thrown string

text \<open>
  The bitwise operators convert their operands with ToInt32 (\<open>NaN\<close> becomes 0, an
  integer is reduced modulo \<open>2 ^ 32\<close>), and the shift operators use only the low five
  bits of the shift count.
\<close>

definition ToInt32 :: "jsnum \<Rightarrow> 32 word" where
  "ToInt32 v = (case v of NaN \<Rightarrow> 0 | Num i \<Rightarrow> word_of_int i)"

definition js_shl :: "32 word \<Rightarrow> nat \<Rightarrow> 32 word" where
  "js_shl a n = push_bit (n mod 32) a"

definition js_sar :: "32 word \<Rightarrow> nat \<Rightarrow> 32 word" where
  "js_sar a n = signed_drop_bit (n mod 32) a"


section \<open>nextRandom\<close>

text \<open>
  \<^verbatim>\<open>return Math.abs((v >> 1) | (((v << 62) ^ (v << 61)) & (~(~0 << 63) << 62)))\<close>
\<close>

definition nextRandom_bits :: "32 word \<Rightarrow> 32 word" where
  "nextRandom_bits x =
     js_sar x 1 OR ((js_shl x 62 XOR js_shl x 61) AND js_shl (NOT (js_shl (NOT 0) 63)) 62)"

definition nextRandom :: "jsnum \<Rightarrow> jsnum" where
  "nextRandom v = Num \<bar>sint (nextRandom_bits (ToInt32 v))\<bar>"

text \<open>
  The step as the specification words it, in arithmetic that is 63 bits wide: the
  mask \<open>~(~0 << 63) << 62\<close> read at that width keeps bit 62 only.
\<close>

definition nextRandom_spec63 :: "63 word \<Rightarrow> int" where
  "nextRandom_spec63 v =
     \<bar>uint (drop_bit 1 v OR ((push_bit 62 v XOR push_bit 61 v) AND push_bit 62 (NOT (push_bit 63 (NOT 0)))))\<bar>"

section \<open>iterateDataKey\<close>

text \<open>
  A JavaScript string is a sequence of UTF-16 code units; \<open>charCodeAt\<close> reads one of
  them and gives \<open>NaN\<close> outside the string.
\<close>

type_synonym jsstring = "16 word list"









section \<open>The exemption lists\<close>

text \<open>
  Feature names, patterns and URLs are strings. \<open>str\<close> writes an ASCII literal as
  code units.
\<close>

definition str :: "string \<Rightarrow> jsstring" where
  "str s = map (\<lambda>c. of_nat (of_char c)) s"

text \<open>
  What \<open>utils.js\<close> takes from the JavaScript host for the exemption check, as
  parameters of the model:
  \<^item> \<open>RegExp_new\<close>: \<open>new RegExp(pattern)\<close>, which throws on a malformed pattern;
  \<^item> \<open>RegExp_test\<close>: \<open>regex.test(url)\<close>; a regular expression built without flags
    keeps no state between tests;
  \<^item> \<open>Object_prototype\<close>: the members every object inherits (\<open>constructor\<close>,
    \<open>toString\<close>, ...), each with the answer to \<open>.length === 0\<close>; none of them is
    iterable;
  \<^item> \<open>Error_stack_lines\<close>: \<open>new Error().stack?.split('\n')\<close> at the call, which may throw
    and is \<open>None\<close> when the host gives no stack;
  \<^item> \<open>match_lineTest\<close>: \<open>line.match(lineTest)\<close>, giving group 2 of a match, which may
    throw too.
\<close>

record 'r host =
  RegExp_new :: "jsstring \<Rightarrow> error + 'r"
  RegExp_test :: "'r \<Rightarrow> jsstring \<Rightarrow> bool"
  Object_prototype :: "jsstring \<Rightarrow> bool option"
  Error_stack_lines :: "error + jsstring list option"
  match_lineTest :: "jsstring \<Rightarrow> error + jsstring option"

text \<open>
  The module's variables: \<open>const exemptionLists = {}\<close> (its own properties; a name
  other than \<open>__proto__\<close> is assumed for a feature) and \<open>let debug = false\<close>.
\<close>

record 'r globals =
  exemptionLists :: "jsstring \<rightharpoonup> 'r list"
  debug :: bool

definition initial_globals :: "'r globals" where
  "initial_globals = \<lparr>exemptionLists = Map.empty, debug = False\<rparr>"

text \<open>
  \<^verbatim>\<open>for (const regex of exemptionLists[type]) { if (regex.test(url)) { return true } }
  return false\<close>
  Without an own property \<open>type\<close>, \<open>exemptionLists[type]\<close> is \<open>undefined\<close> or a member
  of \<open>Object.prototype\<close>; \<open>for ... of\<close> throws a TypeError on both.
\<close>

fun test_loop :: "('r \<Rightarrow> jsstring \<Rightarrow> bool) \<Rightarrow> 'r list \<Rightarrow> jsstring \<Rightarrow> bool" where
  "test_loop test [] url = False"
| "test_loop test (regex # regexes) url = (if test regex url then True else test_loop test regexes url)"

definition shouldExemptUrl :: "'r host \<Rightarrow> 'r globals \<Rightarrow> jsstring \<Rightarrow> jsstring \<Rightarrow> error + bool" where
  "shouldExemptUrl h g type url =
     (case exemptionLists g type of
        None \<Rightarrow> Inl TypeError
      | Some regexes \<Rightarrow> Inr (test_loop (RegExp_test h) regexes url))"

text \<open>
  \<^verbatim>\<open>const { stringExemptionLists } = args
  debug = args.debug
  for (const type in stringExemptionLists) {
      exemptionLists[type] = []
      for (const stringExemption of stringExemptionLists[type]) {
          exemptionLists[type].push(new RegExp(stringExemption))
      }
  }\<close>
  The argument's mapping is given as its entries in the order \<open>for ... in\<close> enumerates
  them (an absent mapping enumerates nothing). The state written before an exception
  stays: the result is the exception, if any, with the globals.
\<close>

record init_args =
  args_debug :: bool
  args_stringExemptionLists :: "(jsstring \<times> jsstring list) list"

fun push_loop :: "'r host \<Rightarrow> jsstring \<Rightarrow> jsstring list \<Rightarrow> 'r globals \<Rightarrow> error option \<times> 'r globals" where
  "push_loop h type [] g = (None, g)"
| "push_loop h type (stringExemption # rest) g =
     (case RegExp_new h stringExemption of
        Inl e \<Rightarrow> (Some e, g)
      | Inr regex \<Rightarrow>
          (case exemptionLists g type of
             None \<Rightarrow> (Some TypeError, g)
           | Some regexes \<Rightarrow>
               push_loop h type rest (g\<lparr>exemptionLists := (exemptionLists g)(type \<mapsto> regexes @ [regex])\<rparr>)))"

fun type_loop :: "'r host \<Rightarrow> (jsstring \<times> jsstring list) list \<Rightarrow> 'r globals \<Rightarrow> error option \<times> 'r globals" where
  "type_loop h [] g = (None, g)"
| "type_loop h ((type, patterns) # rest) g =
     (case push_loop h type patterns (g\<lparr>exemptionLists := (exemptionLists g)(type \<mapsto> [])\<rparr>) of
        (Some e, g') \<Rightarrow> (Some e, g')
      | (None, g') \<Rightarrow> type_loop h rest g')"

definition initStringExemptionLists :: "'r host \<Rightarrow> init_args \<Rightarrow> 'r globals \<Rightarrow> error option \<times> 'r globals" where
  "initStringExemptionLists h args g =
     type_loop h (args_stringExemptionLists args) (g\<lparr>debug := args_debug args\<rparr>)"

text \<open>
  The body of the \<open>try\<close> block of \<open>shouldExemptMethod\<close>:
  \<^verbatim>\<open>const errorLines = new Error().stack?.split('\n') || []
  const errorFiles = new Set()
  for (const line of errorLines) {
      const res = line.match(lineTest)
      if (res) {
          const path = res[2]
          if (errorFiles.has(path)) { continue }
          if (shouldExemptUrl(type, path)) { return true }
          errorFiles.add(res[2])
      }
  }\<close>
  \<open>Inr True\<close> is the \<open>return true\<close>; \<open>Inr False\<close> is the end of the loop.
\<close>

fun line_loop :: "'r host \<Rightarrow> 'r globals \<Rightarrow> jsstring \<Rightarrow> jsstring list \<Rightarrow> jsstring list \<Rightarrow> error + bool" where
  "line_loop h g type [] errorFiles = Inr False"
| "line_loop h g type (line # rest) errorFiles =
     (case match_lineTest h line of
        Inl e \<Rightarrow> Inl e
      | Inr None \<Rightarrow> line_loop h g type rest errorFiles
      | Inr (Some path) \<Rightarrow>
          if path \<in> set errorFiles then line_loop h g type rest errorFiles
          else (case shouldExemptUrl h g type path of
                  Inl e \<Rightarrow> Inl e
                | Inr True \<Rightarrow> Inr True
                | Inr False \<Rightarrow> line_loop h g type rest (errorFiles @ [path])))"

definition scan_stack :: "'r host \<Rightarrow> 'r globals \<Rightarrow> jsstring \<Rightarrow> error + bool" where
  "scan_stack h g type =
     (case Error_stack_lines h of
        Inl e \<Rightarrow> Inl e
      | Inr None \<Rightarrow> line_loop h g type [] []
      | Inr (Some errorLines) \<Rightarrow> line_loop h g type errorLines [])"

text \<open>
  \<^verbatim>\<open>if (!(type in exemptionLists) || exemptionLists[type].length === 0) { return false }
  try { ... } catch (e) { }
  return false\<close>
\<close>

definition try_scan :: "'r host \<Rightarrow> 'r globals \<Rightarrow> jsstring \<Rightarrow> bool" where
  "try_scan h g type = (case scan_stack h g type of Inl e \<Rightarrow> False | Inr b \<Rightarrow> b)"

definition shouldExemptMethod :: "'r host \<Rightarrow> 'r globals \<Rightarrow> jsstring \<Rightarrow> bool" where
  "shouldExemptMethod h g type =
     (case exemptionLists g type of
        Some regexes \<Rightarrow> if regexes = [] then False else try_scan h g type
      | None \<Rightarrow>
          (case Object_prototype h type of
             None \<Rightarrow> False
           | Some length_is_0 \<Rightarrow> if length_is_0 then False else try_scan h g type))"

section \<open>The handler of DDGProxy\<close>

text \<open>
  The arguments of the \<open>apply\<close> trap (target, this-value, argument list) are a value
  of type \<open>'a\<close>, results are of type \<open>'v\<close>, and \<open>'w\<close> is the state of the page that
  the native callable, the substitute and \<open>postMessage\<close> may read and change. From the
  host:
  \<^item> \<open>Reflect_apply\<close>: \<open>DDGReflect.apply(...args)\<close>, the call of the native callable;
  \<^item> \<open>document_location_href\<close>, \<open>handler_Error_stack\<close> (\<open>new Error().stack\<close>) and
    \<open>JSON_stringify\<close> (of \<open>args[2]\<close>, which throws on a cyclic value or a BigInt),
    the parts of the debug message;
  \<^item> \<open>postMessage\<close>: \<open>globalObj.postMessage\<close>.
\<close>

record debug_message =
  action :: jsstring
  kind :: jsstring
  documentUrl :: jsstring
  stack :: jsstring
  args_json :: "jsstring option"

record ('a, 'v, 'w) page =
  Reflect_apply :: "'a \<Rightarrow> 'w \<Rightarrow> (error + 'v) \<times> 'w"
  document_location_href :: "error + jsstring"
  handler_Error_stack :: "error + jsstring option"
  JSON_stringify :: "'a \<Rightarrow> error + jsstring option"
  postMessage :: "jsstring \<times> debug_message \<Rightarrow> 'w \<Rightarrow> error option \<times> 'w"

text \<open>The fields of a \<open>DDGProxy\<close> that its handler reads.\<close>

record ('a, 'v, 'w) DDGProxy =
  property :: jsstring
  camelFeatureName :: jsstring
  proxyObject_apply :: "'a \<Rightarrow> 'w \<Rightarrow> (error + 'v) \<times> 'w"

text \<open>Which of the two callables a run of the handler invoked, in order.\<close>

datatype callee = Native | Substitute

text \<open>
  \<^verbatim>\<open>postDebugMessage(this.camelFeatureName, {
      action: isExempt ? 'ignore' : 'restrict',
      kind: this.property,
      documentUrl: document.location.href,
      stack: new Error().stack || '',
      args: JSON.stringify(args[2])
  })\<close>
  The members are evaluated in this order, and the first exception ends the handler.
\<close>

definition postDebugMessage :: "('a, 'v, 'w) page \<Rightarrow> jsstring \<Rightarrow> debug_message \<Rightarrow> 'w \<Rightarrow> error option \<times> 'w" where
  "postDebugMessage pg feature message w = postMessage pg (feature, message) w"

definition report :: "('a, 'v, 'w) page \<Rightarrow> ('a, 'v, 'w) DDGProxy \<Rightarrow> bool \<Rightarrow> 'a \<Rightarrow> 'w \<Rightarrow> error option \<times> 'w" where
  "report pg px isExempt args w =
     (case document_location_href pg of
        Inl e \<Rightarrow> (Some e, w)
      | Inr href \<Rightarrow>
     (case handler_Error_stack pg of
        Inl e \<Rightarrow> (Some e, w)
      | Inr stk \<Rightarrow>
     (case JSON_stringify pg args of
        Inl e \<Rightarrow> (Some e, w)
      | Inr json \<Rightarrow>
          postDebugMessage pg (camelFeatureName px)
            \<lparr>action = (if isExempt then str ''ignore'' else str ''restrict''),
             kind = property px,
             documentUrl = href,
             stack = (case stk of None \<Rightarrow> [] | Some s \<Rightarrow> s),
             args_json = json\<rparr> w)))"

text \<open>
  \<^verbatim>\<open>const outputHandler = (...args) => {
      const isExempt = shouldExemptMethod(this.camelFeatureName)
      if (debug) { postDebugMessage(...) }
      if (isExempt) { return DDGReflect.apply(...args) }
      return proxyObject.apply(...args)
  }\<close>
  The result is what the handler returns or throws, the state of the page after it,
  and the callables it invoked.
\<close>

definition outputHandler ::
  "'r host \<Rightarrow> ('a, 'v, 'w) page \<Rightarrow> 'r globals \<Rightarrow> ('a, 'v, 'w) DDGProxy \<Rightarrow> 'a \<Rightarrow> 'w
     \<Rightarrow> (error + 'v) \<times> 'w \<times> callee list" where
  "outputHandler h pg g px args w =
     (let isExempt = shouldExemptMethod h g (camelFeatureName px)
      in case (if debug g then report pg px isExempt args w else (None, w)) of
           (Some e, w1) \<Rightarrow> (Inl e, w1, [])
         | (None, w1) \<Rightarrow>
             if isExempt
             then (fst (Reflect_apply pg args w1), snd (Reflect_apply pg args w1), [Native])
             else (fst (proxyObject_apply px args w1), snd (proxyObject_apply px args w1), [Substitute]))"

section \<open>overrideProperty\<close>

datatype 'v jsval = JsUndefined | JsNull | JsValue 'v

text \<open>
  The descriptor passed by \<open>overrideProperty\<close> has one member, a getter that returns
  \<open>prop.targetValue\<close>.
\<close>

datatype 'v descriptor = Getter "'v jsval"

record ('o, 'v) override_prop =
  object :: 'o
  origValue :: "'v jsval"
  targetValue :: "'v jsval"

text \<open>
  The host's part of \<open>defineProperty\<close>: \<open>Object.defineProperty\<close>, and, where
  \<open>mozProxies\<close> is set, the definition through \<open>wrappedJSObject\<close>. Both give the
  object with the property defined, or throw and leave the object as it was.
\<close>

record ('o, 'v) object_host =
  hasMozProxies :: bool
  Object_defineProperty :: "'o \<Rightarrow> jsstring \<Rightarrow> 'v descriptor \<Rightarrow> error + 'o"
  wrapped_defineProperty :: "'o \<Rightarrow> jsstring \<Rightarrow> 'v descriptor \<Rightarrow> error + 'o"

definition defineProperty :: "('o, 'v) object_host \<Rightarrow> 'o \<Rightarrow> jsstring \<Rightarrow> 'v descriptor \<Rightarrow> error + 'o" where
  "defineProperty oh obj propertyName d =
     (if hasMozProxies oh then wrapped_defineProperty oh obj propertyName d
      else Object_defineProperty oh obj propertyName d)"

text \<open>
  \<^verbatim>\<open>if (!(prop.origValue === undefined)) {
      try {
          defineProperty(prop.object, name, { get: (() => prop.targetValue).bind(null) })
      } catch (e) { }
  }
  return prop.origValue\<close>
  The result is the value returned, the object afterwards, and the calls of
  \<open>defineProperty\<close> that were made.
\<close>

definition overrideProperty ::
  "('o, 'v) object_host \<Rightarrow> jsstring \<Rightarrow> ('o, 'v) override_prop \<Rightarrow> 'v jsval \<times> 'o \<times> (jsstring \<times> 'v descriptor) list" where
  "overrideProperty oh name p =
     (if \<not> (origValue p = JsUndefined) then
        (case defineProperty oh (object p) name (Getter (targetValue p)) of
           Inr obj' \<Rightarrow> (origValue p, obj', [(name, Getter (targetValue p))])
         | Inl e \<Rightarrow> (origValue p, object p, [(name, Getter (targetValue p))]))
      else (origValue p, object p, []))"

section \<open>getDataKeySync\<close>

text \<open>
  Modelled from the spec: the library \<open>lib/sjcl.js\<close> is not among the sources. Its HMAC
  with SHA-256 is a parameter: \<open>utf8String_toBits\<close> encodes the key string, and
  \<open>hmac_encrypt\<close> maps the key bits and the input to the 256-bit output of the hash. A
  new HMAC object is made in each call, so nothing is carried from one call to the next.
\<close>

record 'b sjcl =
  utf8String_toBits :: "jsstring \<Rightarrow> 'b"
  hmac_encrypt :: "'b \<Rightarrow> jsnum \<Rightarrow> 256 word"

text \<open>
  Modelled from the spec: \<open>sjcl.codec.hex.fromBits\<close> writes the output hex-encoded, in
  lowercase, most significant digit first, 64 characters for 256 bits.
\<close>

definition hex_digit :: "nat \<Rightarrow> 16 word" where
  "hex_digit n = (if n < 10 then of_nat (48 + n) else of_nat (97 + (n - 10)))"

definition hex_fromBits :: "256 word \<Rightarrow> jsstring" where
  "hex_fromBits w = map (\<lambda>i. hex_digit (unat (drop_bit (4 * (63 - i)) w AND 15))) [0..<64]"

definition lowercase_hex :: "16 word \<Rightarrow> bool" where
  "lowercase_hex c \<longleftrightarrow> (48 \<le> c \<and> c \<le> 57) \<or> (97 \<le> c \<and> c \<le> 102)"

text \<open>
  \<^verbatim>\<open>const hmac = new sjcl.misc.hmac(sjcl.codec.utf8String.toBits(sessionKey + domainKey), sjcl.hash.sha256)
  return sjcl.codec.hex.fromBits(hmac.encrypt(inputData))\<close>
\<close>

definition getDataKeySync :: "'b sjcl \<Rightarrow> jsstring \<Rightarrow> jsstring \<Rightarrow> jsnum \<Rightarrow> jsstring" where
  "getDataKeySync lib sessionKey domainKey inputData =
     hex_fromBits (hmac_encrypt lib (utf8String_toBits lib (sessionKey @ domainKey)) inputData)"

section \<open>Notions used in the statements\<close>

text \<open>
  The patterns of a list all compile, and the regular expressions they compile to.
\<close>

definition compiles :: "'r host \<Rightarrow> jsstring list \<Rightarrow> bool" where
  "compiles h patterns = list_all (\<lambda>p. \<not> isl (RegExp_new h p)) patterns"

definition compiled :: "'r host \<Rightarrow> jsstring list \<Rightarrow> 'r list" where
  "compiled h patterns = map (\<lambda>p. projr (RegExp_new h p)) patterns"

section \<open>Concrete hosts for the examples\<close>

text \<open>
  A stand-in for the built-in \<open>RegExp\<close> on the patterns the examples use: a pattern
  made of ASCII letters and digits only compiles and matches exactly the strings that
  contain it; the pattern \<open>(\<close> does not compile (an unterminated group). The stand-in
  is used at no other pattern with a character outside letters and digits.
\<close>

definition alnum :: "16 word \<Rightarrow> bool" where
  "alnum c \<longleftrightarrow> (48 \<le> c \<and> c \<le> 57) \<or> (65 \<le> c \<and> c \<le> 90) \<or> (97 \<le> c \<and> c \<le> 122)"

fun contains :: "jsstring \<Rightarrow> jsstring \<Rightarrow> bool" where
  "contains p [] = (p = [])"
| "contains p (c # cs) = (take (length p) (c # cs) = p \<or> contains p cs)"

text \<open>
  The host of the examples is given the stack of the call as lines and, for
  \<open>line.match(lineTest)\<close>, the list of the lines that match with their group 2.
  Its \<open>Object.prototype\<close> has \<open>constructor\<close> (of length 1) and \<open>toString\<close> (of
  length 0).
\<close>

definition literal_host :: "(error + jsstring list option) \<Rightarrow> (jsstring \<times> jsstring) list \<Rightarrow> jsstring host" where
  "literal_host stack_lines matching =
     \<lparr>RegExp_new = (\<lambda>p. if list_all alnum p then Inr p else Inl SyntaxError),
      RegExp_test = (\<lambda>r url. contains r url),
      Object_prototype = (\<lambda>name. if name = str ''constructor'' then Some False
                                  else if name = str ''toString'' then Some True else None),
      Error_stack_lines = stack_lines,
      match_lineTest = (\<lambda>line. Inr (map_of matching line))\<rparr>"

text \<open>
  A page for the examples: the arguments and results are numbers, the state of the
  page is the list of debug messages posted, the native callable adds 1 to its argument,
  and \<open>JSON.stringify\<close> is given (it throws when the arguments hold a BigInt).
\<close>

definition example_page :: "(nat \<Rightarrow> error + jsstring option) \<Rightarrow> (nat, nat, (jsstring \<times> debug_message) list) page" where
  "example_page stringify =
     \<lparr>Reflect_apply = (\<lambda>a w. (Inr (a + 1), w)),
      document_location_href = Inr (str ''https://a.io/''),
      handler_Error_stack = Inr None,
      JSON_stringify = stringify,
      postMessage = (\<lambda>m w. (None, w @ [m]))\<rparr>"

text \<open>The substitute of the examples answers 0.\<close>

definition example_proxy :: "(nat, nat, (jsstring \<times> debug_message) list) DDGProxy" where
  "example_proxy =
     \<lparr>property = str ''getImageData'', camelFeatureName = str ''f'',
      proxyObject_apply = (\<lambda>a w. (Inr 0, w))\<rparr>"

text \<open>
  An object for the examples: each property has the attribute \<open>configurable\<close> and is a
  data property or an accessor with a getter that returns a fixed value.
  \<open>Object.defineProperty\<close> with a getter throws a TypeError on a property that is not
  configurable, and a property it creates is not configurable.
\<close>

datatype 'v member = Data "'v jsval" | Accessor "'v jsval"

type_synonym 'v simple_object = "jsstring \<rightharpoonup> bool \<times> 'v member"

definition simple_defineProperty :: "'v simple_object \<Rightarrow> jsstring \<Rightarrow> 'v descriptor \<Rightarrow> error + 'v simple_object" where
  "simple_defineProperty obj name d =
     (case d of Getter v \<Rightarrow>
        (case obj name of
           None \<Rightarrow> Inr (obj(name \<mapsto> (False, Accessor v)))
         | Some (c, m) \<Rightarrow> if c then Inr (obj(name \<mapsto> (c, Accessor v))) else Inl TypeError))"

definition read_property :: "'v simple_object \<Rightarrow> jsstring \<Rightarrow> 'v jsval" where
  "read_property obj name =
     (case obj name of None \<Rightarrow> JsUndefined | Some (c, Data v) \<Rightarrow> v | Some (c, Accessor v) \<Rightarrow> v)"

definition simple_host :: "('v simple_object, 'v) object_host" where
  "simple_host =
     \<lparr>hasMozProxies = False,
      Object_defineProperty = simple_defineProperty,
      wrapped_defineProperty = simple_defineProperty\<rparr>"

text \<open>
  A stand-in for the library in the examples: the key bits are the string, and the
  output is a 256-bit number computed from the key and the input.
\<close>

definition example_sjcl :: "jsstring sjcl" where
  "example_sjcl =
     \<lparr>utf8String_toBits = (\<lambda>s. s),
      hmac_encrypt = (\<lambda>k d. word_of_int (int (length k)) * 0xfedcba9876543210 + ucast (ToInt32 d))\<rparr>"

text \<open>Data of the examples.\<close>

definition lib_line :: jsstring where
  "lib_line = str ''at f (https://a.io/lib.js:1:2)''"

definition lib_url :: jsstring where
  "lib_url = str ''https://a.io/lib.js''"

text \<open>A host whose stack has one frame, in \<open>https://a.io/lib.js\<close>.\<close>

definition lib_host :: "jsstring host" where
  "lib_host = literal_host (Inr (Some [lib_line])) [(lib_line, lib_url)]"

text \<open>A host in which reading the stack throws, and one in which matching a line throws.\<close>

definition no_stack_host :: "jsstring host" where
  "no_stack_host = literal_host (Inl (Thrown ''stack'')) []"

definition no_match_host :: "jsstring host" where
  "no_match_host = lib_host\<lparr>match_lineTest := (\<lambda>line. Inl (Thrown ''match''))\<rparr>"

text \<open>The configuration \<open>{ f: ['lib'] }\<close>, with the debug flag given, and the empty one.\<close>

definition f_lib_args :: "bool \<Rightarrow> init_args" where
  "f_lib_args d = \<lparr>args_debug = d, args_stringExemptionLists = [(str ''f'', [str ''lib''])]\<rparr>"

definition empty_args :: init_args where
  "empty_args = \<lparr>args_debug = False, args_stringExemptionLists = []\<rparr>"

definition f_lib_globals :: "bool \<Rightarrow> jsstring globals" where
  "f_lib_globals d = snd (initStringExemptionLists lib_host (f_lib_args d) initial_globals)"

text \<open>
  The configuration \<open>{ f: ['lib'], g: ['ab', '(', 'cd'], k: ['x'] }\<close>, whose fourth
  pattern does not compile.
\<close>

definition broken_args :: init_args where
  "broken_args =
     \<lparr>args_debug = True,
      args_stringExemptionLists =
        [(str ''f'', [str ''lib'']), (str ''g'', [str ''ab'', str ''('', str ''cd'']), (str ''k'', [str ''x''])]\<rparr>"




section \<open>nextRandom: the arithmetic is on 32 bits\<close>

lemma nextRandom_mask: "js_shl (NOT (js_shl (NOT 0) 63)) 62 = (0xC0000000 :: 32 word)"
  by (simp add: js_shl_def mask_eq_exp_minus_1 push_bit_eq_mult)

lemma nextRandom_bits_eq:
  "nextRandom_bits x = signed_drop_bit 1 x OR ((push_bit 30 x XOR push_bit 29 x) AND 0xC0000000)"
  unfolding nextRandom_bits_def nextRandom_mask by (simp add: js_shl_def js_sar_def)

lemma abs_sint32_range: "0 \<le> \<bar>sint (w :: 32 word)\<bar> \<and> \<bar>sint w\<bar> \<le> 2 ^ 31"
  using sint_range_size [of w] by (simp add: word_size abs_le_iff)

text \<open>
  C4, as the claim states it, fails at \<open>v = 1\<close>: \<open>nextRandom(1)\<close> is \<open>2 ^ 30\<close>, where
  the step in arithmetic 63 bits wide gives \<open>2 ^ 62\<close>.
\<close>

theorem nextRandom_spec63_counterexample:
  "nextRandom (Num 1) = Num 1073741824 \<and> nextRandom_spec63 1 = 4611686018427387904 \<and>
   nextRandom (Num 1) \<noteq> Num (nextRandom_spec63 1)"
  by code_simp

text \<open>
  C4, amended: for every integer \<open>v\<close> (so for every 63-bit unsigned one),
  \<open>nextRandom(v)\<close> is the absolute value of
  \<open>(x >> 1) | (((x << 30) XOR (x << 29)) & 0xC0000000)\<close> computed on signed 32-bit
  integers, where \<open>x\<close> is \<open>v\<close> reduced to 32 bits: the shift counts 62, 61 and 63 are
  taken modulo 32 and the mask keeps bits 30 and 31. The result depends on the low 32
  bits of \<open>v\<close> only and lies between 0 and \<open>2 ^ 31\<close>; the function is defined on every
  input.
\<close>

theorem nextRandom_int32:
  "nextRandom (Num v) =
     Num \<bar>sint (signed_drop_bit 1 (word_of_int v :: 32 word) OR
               ((push_bit 30 (word_of_int v) XOR push_bit 29 (word_of_int v)) AND 0xC0000000))\<bar> \<and>
   nextRandom (Num v) = nextRandom (Num (v mod 2 ^ 32)) \<and>
   (\<exists>r. nextRandom (Num v) = Num r \<and> 0 \<le> r \<and> r \<le> 2 ^ 31)"
proof -
  have m: "(word_of_int (v mod 2 ^ 32) :: 32 word) = word_of_int v"
    by (simp add: word_of_int_eq_iff take_bit_eq_mod)
  have e: "nextRandom (Num u) = Num \<bar>sint (nextRandom_bits (word_of_int u))\<bar>" for u
    by (simp add: nextRandom_def ToInt32_def)
  have 1: "nextRandom (Num v) =
     Num \<bar>sint (signed_drop_bit 1 (word_of_int v :: 32 word) OR
               ((push_bit 30 (word_of_int v) XOR push_bit 29 (word_of_int v)) AND 0xC0000000))\<bar>"
    unfolding e nextRandom_bits_eq ..
  have 2: "nextRandom (Num v) = nextRandom (Num (v mod 2 ^ 32))"
    unfolding e m ..
  have 3: "\<exists>r. nextRandom (Num v) = Num r \<and> 0 \<le> r \<and> r \<le> 2 ^ 31"
    unfolding e using abs_sint32_range [of "nextRandom_bits (word_of_int v)"] by blast
  from 1 2 3 show ?thesis by blast
qed

section \<open>iterateDataKey: the number of invocations\<close>











section \<open>The exemption lists: statements\<close>

text \<open>
  C1, on the code: in the module as loaded, where no feature has been configured,
  \<open>shouldExemptUrl\<close> throws a TypeError for every feature name and every URL; it does
  not return false.
\<close>

theorem shouldExemptUrl_unknown_feature_throws:
  "shouldExemptUrl h initial_globals feature url = Inl TypeError"
  by (simp add: shouldExemptUrl_def initial_globals_def)

lemma push_loop_other:
  "t \<noteq> type \<Longrightarrow> exemptionLists (snd (push_loop h type ps g)) t = exemptionLists g t"
  by (induction ps arbitrary: g) (auto split: sum.splits option.splits)

lemma push_loop_debug: "debug (snd (push_loop h type ps g)) = debug g"
  by (induction ps arbitrary: g) (auto split: sum.splits option.splits)

lemma push_loop_ok:
  "exemptionLists g type = Some rs \<Longrightarrow> compiles h ps \<Longrightarrow>
   push_loop h type ps g = (None, g\<lparr>exemptionLists := (exemptionLists g)(type \<mapsto> rs @ compiled h ps)\<rparr>)"
proof (induction ps arbitrary: g rs)
  case Nil
  then show ?case by (simp add: compiled_def fun_upd_idem)
next
  case (Cons p ps)
  from Cons.prems obtain r where r: "RegExp_new h p = Inr r" and c: "compiles h ps"
    by (cases "RegExp_new h p") (auto simp: compiles_def)
  let ?g = "g\<lparr>exemptionLists := (exemptionLists g)(type \<mapsto> rs @ [r])\<rparr>"
  have "exemptionLists ?g type = Some (rs @ [r])" by simp
  from Cons.IH [OF this c] r Cons.prems(1) show ?case
    by (simp add: compiled_def cong: if_cong)
qed

lemma push_loop_fail:
  "exemptionLists g type = Some rs \<Longrightarrow> compiles h good \<Longrightarrow> RegExp_new h bad = Inl e \<Longrightarrow>
   push_loop h type (good @ bad # others) g =
     (Some e, g\<lparr>exemptionLists := (exemptionLists g)(type \<mapsto> rs @ compiled h good)\<rparr>)"
proof (induction good arbitrary: g rs)
  case Nil
  then show ?case by (simp add: compiled_def fun_upd_idem)
next
  case (Cons p ps)
  from Cons.prems obtain r where r: "RegExp_new h p = Inr r" and c: "compiles h ps"
    by (cases "RegExp_new h p") (auto simp: compiles_def)
  let ?g = "g\<lparr>exemptionLists := (exemptionLists g)(type \<mapsto> rs @ [r])\<rparr>"
  have "exemptionLists ?g type = Some (rs @ [r])" by simp
  from Cons.IH [OF this c Cons.prems(3)] r Cons.prems(1) show ?case
    by (simp add: compiled_def cong: if_cong)
qed

lemma type_loop_other:
  "t \<notin> fst ` set entries \<Longrightarrow> exemptionLists (snd (type_loop h entries g)) t = exemptionLists g t"
proof (induction entries arbitrary: g)
  case Nil
  show ?case by simp
next
  case (Cons a entries)
  obtain type ps where a: "a = (type, ps)" by (cases a)
  with Cons.prems have ne: "t \<noteq> type" and ni: "t \<notin> fst ` set entries" by auto
  let ?g = "g\<lparr>exemptionLists := (exemptionLists g)(type \<mapsto> [])\<rparr>"
  obtain r g' where p: "push_loop h type ps ?g = (r, g')" by (cases "push_loop h type ps ?g")
  from push_loop_other [OF ne, of h ps ?g] p ne
  have eq: "exemptionLists g' t = exemptionLists g t" by simp
  show ?case
  proof (cases r)
    case None
    with a p eq Cons.IH [OF ni, of g'] show ?thesis by simp
  next
    case (Some e)
    with a p eq show ?thesis by simp
  qed
qed

lemma type_loop_debug: "debug (snd (type_loop h entries g)) = debug g"
proof (induction entries arbitrary: g)
  case Nil
  show ?case by simp
next
  case (Cons a entries)
  obtain type ps where a: "a = (type, ps)" by (cases a)
  let ?g = "g\<lparr>exemptionLists := (exemptionLists g)(type \<mapsto> [])\<rparr>"
  obtain r g' where p: "push_loop h type ps ?g = (r, g')" by (cases "push_loop h type ps ?g")
  from push_loop_debug [of h type ps ?g] p have "debug g' = debug g" by simp
  with a p Cons.IH [of g'] show ?case by (cases r) simp_all
qed

lemma type_loop_ok:
  "distinct (map fst entries) \<Longrightarrow> list_all (\<lambda>(t, ps). compiles h ps) entries \<Longrightarrow>
   fst (type_loop h entries g) = None \<and>
   (\<forall>(t, ps) \<in> set entries. exemptionLists (snd (type_loop h entries g)) t = Some (compiled h ps))"
proof (induction entries arbitrary: g)
  case Nil
  show ?case by simp
next
  case (Cons a entries)
  obtain type ps where a: "a = (type, ps)" by (cases a)
  let ?g = "g\<lparr>exemptionLists := (exemptionLists g)(type \<mapsto> [])\<rparr>"
  let ?g' = "?g\<lparr>exemptionLists := (exemptionLists ?g)(type \<mapsto> [] @ compiled h ps)\<rparr>"
  from Cons.prems a have c: "compiles h ps" and cs: "list_all (\<lambda>(t, ps). compiles h ps) entries"
    and d: "distinct (map fst entries)" and ni: "type \<notin> fst ` set entries" by auto
  have "exemptionLists ?g type = Some []" by simp
  from push_loop_ok [OF this c]
  have p: "push_loop h type ps ?g = (None, ?g')" .
  then have t: "type_loop h (a # entries) g = type_loop h entries ?g'" using a by simp
  from type_loop_other [OF ni, of h ?g']
  have "exemptionLists (snd (type_loop h entries ?g')) type = Some (compiled h ps)" by simp
  with Cons.IH [OF d cs, of ?g'] t a show ?case by simp
qed

lemma type_loop_fail:
  assumes d: "distinct (map fst pre)" and ni: "type \<notin> fst ` set pre"
    and cs: "list_all (\<lambda>(t, ps). compiles h ps) pre"
    and c: "compiles h good" and b: "RegExp_new h bad = Inl e"
  shows "fst (type_loop h (pre @ (type, good @ bad # others) # post) g) = Some e \<and>
         exemptionLists (snd (type_loop h (pre @ (type, good @ bad # others) # post) g)) type = Some (compiled h good) \<and>
         (\<forall>(t, ps) \<in> set pre. exemptionLists (snd (type_loop h (pre @ (type, good @ bad # others) # post) g)) t = Some (compiled h ps)) \<and>
         (\<forall>t. t \<notin> fst ` set pre \<and> t \<noteq> type \<longrightarrow>
              exemptionLists (snd (type_loop h (pre @ (type, good @ bad # others) # post) g)) t = exemptionLists g t)"
  using d ni cs
proof (induction pre arbitrary: g)
  case Nil
  let ?g = "g\<lparr>exemptionLists := (exemptionLists g)(type \<mapsto> [])\<rparr>"
  have "exemptionLists ?g type = Some []" by simp
  from push_loop_fail [OF this c b, of others]
  show ?case by simp
next
  case (Cons a pre)
  obtain t0 ps0 where a: "a = (t0, ps0)" by (cases a)
  let ?rest = "pre @ (type, good @ bad # others) # post"
  let ?g = "g\<lparr>exemptionLists := (exemptionLists g)(t0 \<mapsto> [])\<rparr>"
  let ?g' = "?g\<lparr>exemptionLists := (exemptionLists ?g)(t0 \<mapsto> [] @ compiled h ps0)\<rparr>"
  from Cons.prems a have c0: "compiles h ps0" and cs': "list_all (\<lambda>(t, ps). compiles h ps) pre"
    and d': "distinct (map fst pre)" and ni0: "t0 \<notin> fst ` set pre" and ne: "t0 \<noteq> type"
    and ni': "type \<notin> fst ` set pre" by auto
  have "exemptionLists ?g t0 = Some []" by simp
  from push_loop_ok [OF this c0] have p: "push_loop h t0 ps0 ?g = (None, ?g')" .
  then have t: "type_loop h ((a # pre) @ (type, good @ bad # others) # post) g = type_loop h ?rest ?g'"
    using a by simp
  note IH = Cons.IH [OF d' ni' cs', of ?g']
  from IH ni0 ne have "exemptionLists (snd (type_loop h ?rest ?g')) t0 = exemptionLists ?g' t0"
    by blast
  then have t0: "exemptionLists (snd (type_loop h ?rest ?g')) t0 = Some (compiled h ps0)" by simp
  have other: "\<forall>t. t \<notin> fst ` set (a # pre) \<and> t \<noteq> type \<longrightarrow>
      exemptionLists (snd (type_loop h ?rest ?g')) t = exemptionLists g t"
  proof (intro allI impI)
    fix t assume "t \<notin> fst ` set (a # pre) \<and> t \<noteq> type"
    with a have "t \<notin> fst ` set pre \<and> t \<noteq> type" and "t \<noteq> t0" by auto
    with IH have "exemptionLists (snd (type_loop h ?rest ?g')) t = exemptionLists ?g' t" by blast
    with \<open>t \<noteq> t0\<close> show "exemptionLists (snd (type_loop h ?rest ?g')) t = exemptionLists g t" by simp
  qed
  from IH t0 other show ?case unfolding t using a by simp
qed

lemma initStringExemptionLists_other:
  "type \<notin> fst ` set (args_stringExemptionLists args) \<Longrightarrow>
   exemptionLists (snd (initStringExemptionLists h args g)) type = exemptionLists g type"
  using type_loop_other [of type "args_stringExemptionLists args" h "g\<lparr>debug := args_debug args\<rparr>"]
  by (simp add: initStringExemptionLists_def)

lemma shouldExemptUrl_cong:
  "exemptionLists g' type = exemptionLists g type \<Longrightarrow>
   shouldExemptUrl h g' type url = shouldExemptUrl h g type url"
  by (simp add: shouldExemptUrl_def)

lemma line_loop_cong:
  "exemptionLists g' type = exemptionLists g type \<Longrightarrow>
   line_loop h g' type lines seen = line_loop h g type lines seen"
proof (induction lines arbitrary: seen)
  case Nil
  show ?case by simp
next
  case (Cons line lines)
  from Cons.prems have u: "shouldExemptUrl h g' type path = shouldExemptUrl h g type path" for path
    by (rule shouldExemptUrl_cong)
  show ?case
    by (simp add: u Cons.IH [OF Cons.prems] split: sum.splits option.splits bool.splits)
qed

lemma shouldExemptMethod_cong:
  assumes "exemptionLists g' type = exemptionLists g type"
  shows "shouldExemptMethod h g' type = shouldExemptMethod h g type"
proof -
  have "scan_stack h g' type = scan_stack h g type"
    by (simp add: scan_stack_def line_loop_cong [OF assms] split: sum.splits option.splits)
  then have "try_scan h g' type = try_scan h g type"
    by (simp add: try_scan_def)
  then show ?thesis
    by (simp add: shouldExemptMethod_def assms split: option.splits)
qed

text \<open>
  C2, as the claim states it, fails: after \<open>{ f: ['lib'] }\<close> and then an empty mapping,
  the feature \<open>f\<close> is still exempt for \<open>https://a.io/lib.js\<close>, for
  \<open>shouldExemptUrl\<close> and for \<open>shouldExemptMethod\<close> called from that file, where a
  feature that was never configured gives a TypeError and false.
\<close>

theorem reinit_keeps_omitted_counterexample:
  "shouldExemptUrl lib_host
     (snd (initStringExemptionLists lib_host empty_args (f_lib_globals False))) (str ''f'') lib_url = Inr True \<and>
   shouldExemptMethod lib_host
     (snd (initStringExemptionLists lib_host empty_args (f_lib_globals False))) (str ''f'') = True \<and>
   shouldExemptUrl lib_host initial_globals (str ''f'') lib_url = Inl TypeError \<and>
   shouldExemptMethod lib_host initial_globals (str ''f'') = False"
  by code_simp

text \<open>
  C2, amended: a call of \<open>initStringExemptionLists\<close> replaces the list of each
  feature that its mapping names (when the patterns compile, by the regular expressions
  of that entry) and leaves the list of every other feature as it was: after a second
  call whose mapping omits a feature that the first call configured, \<open>shouldExemptUrl\<close>
  and \<open>shouldExemptMethod\<close> answer for that feature as they did before the second
  call.
\<close>

theorem initStringExemptionLists_per_feature:
  "(type \<notin> fst ` set (args_stringExemptionLists args) \<longrightarrow>
      exemptionLists (snd (initStringExemptionLists h args g)) type = exemptionLists g type \<and>
      shouldExemptUrl h (snd (initStringExemptionLists h args g)) type url = shouldExemptUrl h g type url \<and>
      shouldExemptMethod h (snd (initStringExemptionLists h args g)) type = shouldExemptMethod h g type) \<and>
   (distinct (map fst (args_stringExemptionLists args)) \<and>
    list_all (\<lambda>(t, ps). compiles h ps) (args_stringExemptionLists args) \<and>
    (type, patterns) \<in> set (args_stringExemptionLists args) \<longrightarrow>
      fst (initStringExemptionLists h args g) = None \<and>
      exemptionLists (snd (initStringExemptionLists h args g)) type = Some (compiled h patterns))"
proof (intro conjI impI)
  assume "type \<notin> fst ` set (args_stringExemptionLists args)"
  then have e: "exemptionLists (snd (initStringExemptionLists h args g)) type = exemptionLists g type"
    by (rule initStringExemptionLists_other)
  then show "exemptionLists (snd (initStringExemptionLists h args g)) type = exemptionLists g type" .
  from e show "shouldExemptUrl h (snd (initStringExemptionLists h args g)) type url = shouldExemptUrl h g type url"
    by (rule shouldExemptUrl_cong)
  from e show "shouldExemptMethod h (snd (initStringExemptionLists h args g)) type = shouldExemptMethod h g type"
    by (rule shouldExemptMethod_cong)
next
  assume a: "distinct (map fst (args_stringExemptionLists args)) \<and>
    list_all (\<lambda>(t, ps). compiles h ps) (args_stringExemptionLists args) \<and>
    (type, patterns) \<in> set (args_stringExemptionLists args)"
  from a type_loop_ok [of "args_stringExemptionLists args" h "g\<lparr>debug := args_debug args\<rparr>"]
  show "fst (initStringExemptionLists h args g) = None"
    by (simp add: initStringExemptionLists_def)
  from a type_loop_ok [of "args_stringExemptionLists args" h "g\<lparr>debug := args_debug args\<rparr>"]
  show "exemptionLists (snd (initStringExemptionLists h args g)) type = Some (compiled h patterns)"
    by (auto simp: initStringExemptionLists_def)
qed

theorem initStringExemptionLists_per_feature_witness:
  "str ''f'' \<notin> fst ` set (args_stringExemptionLists empty_args) \<and>
   exemptionLists (snd (initStringExemptionLists lib_host empty_args (f_lib_globals False))) (str ''f'')
     = Some [str ''lib''] \<and>
   shouldExemptMethod lib_host (snd (initStringExemptionLists lib_host empty_args (f_lib_globals False))) (str ''f'') \<and>
   distinct (map fst (args_stringExemptionLists (f_lib_args False))) \<and>
   list_all (\<lambda>(t, ps). compiles lib_host ps) (args_stringExemptionLists (f_lib_args False)) \<and>
   (str ''f'', [str ''lib'']) \<in> set (args_stringExemptionLists (f_lib_args False)) \<and>
   exemptionLists (snd (initStringExemptionLists lib_host (f_lib_args False) (f_lib_globals False))) (str ''f'')
     = Some (compiled lib_host [str ''lib''])"
proof -
  have 1: "str ''f'' \<notin> fst ` set (args_stringExemptionLists empty_args)"
    by (simp add: empty_args_def)
  have 2: "exemptionLists (f_lib_globals False) (str ''f'') = Some [str ''lib'']"
    by code_simp
  have 3: "shouldExemptMethod lib_host (f_lib_globals False) (str ''f'')"
    by code_simp
  have 4: "distinct (map fst (args_stringExemptionLists (f_lib_args False)))"
    by (simp add: f_lib_args_def)
  have 5: "list_all (\<lambda>(t, ps). compiles lib_host ps) (args_stringExemptionLists (f_lib_args False))"
    by code_simp
  have 6: "(str ''f'', [str ''lib'']) \<in> set (args_stringExemptionLists (f_lib_args False))"
    by (simp add: f_lib_args_def)
  from 1 2 3 4 5 6
    initStringExemptionLists_per_feature [where type = "str ''f''" and args = empty_args
      and h = lib_host and g = "f_lib_globals False"]
    initStringExemptionLists_per_feature [where type = "str ''f''" and args = "f_lib_args False"
      and h = lib_host and g = "f_lib_globals False" and patterns = "[str ''lib'']"]
  show ?thesis by simp
qed

text \<open>
  C10: when a pattern does not compile, \<open>initStringExemptionLists\<close> throws the
  exception of \<open>new RegExp\<close> and keeps what it has written: the debug flag, the lists of
  the features enumerated before the failing entry, and for the failing feature the
  regular expressions of the patterns before the invalid one. The lists of the features
  it has not reached are as before the call.
\<close>

theorem initStringExemptionLists_not_atomic:
  assumes "args_stringExemptionLists args = pre @ (type, good @ bad # others) # post"
    and "distinct (map fst pre)" and "type \<notin> fst ` set pre"
    and "list_all (\<lambda>(t, ps). compiles h ps) pre"
    and "compiles h good" and "RegExp_new h bad = Inl e"
  shows "fst (initStringExemptionLists h args g) = Some e \<and>
         debug (snd (initStringExemptionLists h args g)) = args_debug args \<and>
         exemptionLists (snd (initStringExemptionLists h args g)) type = Some (compiled h good) \<and>
         (\<forall>(t, ps) \<in> set pre.
            exemptionLists (snd (initStringExemptionLists h args g)) t = Some (compiled h ps)) \<and>
         (\<forall>t. t \<notin> fst ` set pre \<and> t \<noteq> type \<longrightarrow>
            exemptionLists (snd (initStringExemptionLists h args g)) t = exemptionLists g t)"
proof -
  have d: "debug (snd (initStringExemptionLists h args g)) = args_debug args"
    by (simp add: initStringExemptionLists_def type_loop_debug)
  from type_loop_fail [OF assms(2-6), of others post "g\<lparr>debug := args_debug args\<rparr>"] d
  show ?thesis
    by (simp add: initStringExemptionLists_def assms(1))
qed

theorem initStringExemptionLists_not_atomic_witness:
  "fst (initStringExemptionLists lib_host broken_args initial_globals) = Some SyntaxError \<and>
   debug (snd (initStringExemptionLists lib_host broken_args initial_globals)) = True \<and>
   exemptionLists (snd (initStringExemptionLists lib_host broken_args initial_globals)) (str ''g'')
     = Some [str ''ab''] \<and>
   exemptionLists (snd (initStringExemptionLists lib_host broken_args initial_globals)) (str ''f'')
     = Some [str ''lib''] \<and>
   exemptionLists (snd (initStringExemptionLists lib_host broken_args initial_globals)) (str ''k'')
     = None"
proof -
  have 1: "args_stringExemptionLists broken_args =
      [(str ''f'', [str ''lib''])] @ (str ''g'', [str ''ab''] @ str ''('' # [str ''cd'']) # [(str ''k'', [str ''x''])]"
    by (simp add: broken_args_def)
  have 2: "distinct (map fst [(str ''f'', [str ''lib''])])" by simp
  have 3: "str ''g'' \<notin> fst ` set [(str ''f'', [str ''lib''])]" by (simp add: str_def)
  have 4: "list_all (\<lambda>(t, ps). compiles lib_host ps) [(str ''f'', [str ''lib''])]" by code_simp
  have 5: "compiles lib_host [str ''ab'']" by code_simp
  have 6: "RegExp_new lib_host (str ''('') = Inl SyntaxError" by code_simp
  have 7: "compiled lib_host [str ''ab''] = [str ''ab''] \<and> compiled lib_host [str ''lib''] = [str ''lib'']"
    by code_simp
  have 8: "str ''k'' \<notin> fst ` set [(str ''f'', [str ''lib''])] \<and> str ''k'' \<noteq> str ''g''"
    by (simp add: str_def)
  have 9: "exemptionLists (initial_globals :: jsstring globals) (str ''k'') = None"
    by (simp add: initial_globals_def)
  from initStringExemptionLists_not_atomic [OF 1 2 3 4 5 6, of initial_globals] 7 8 9
  show ?thesis by (simp add: broken_args_def)
qed

section \<open>shouldExemptMethod: exceptions stay inside\<close>

text \<open>
  C5: for a feature configured with at least one pattern, an exception raised while
  the stack is read, or anywhere else in the \<open>try\<close> block (splitting the stack,
  matching a line, testing a URL), does not leave \<open>shouldExemptMethod\<close>: the function
  returns false. In the model the function has a boolean result and no exceptional one.
\<close>

theorem shouldExemptMethod_swallows:
  assumes "exemptionLists g type = Some regexes" and "regexes \<noteq> []"
  shows "(Error_stack_lines h = Inl e \<longrightarrow> shouldExemptMethod h g type = False) \<and>
         (scan_stack h g type = Inl e \<longrightarrow> shouldExemptMethod h g type = False)"
  using assms by (simp add: shouldExemptMethod_def try_scan_def scan_stack_def)

theorem shouldExemptMethod_swallows_witness:
  "exemptionLists (f_lib_globals False) (str ''f'') = Some [str ''lib''] \<and>
   Error_stack_lines no_stack_host = Inl (Thrown ''stack'') \<and>
   shouldExemptMethod no_stack_host (f_lib_globals False) (str ''f'') = False \<and>
   scan_stack no_match_host (f_lib_globals False) (str ''f'') = Inl (Thrown ''match'') \<and>
   shouldExemptMethod no_match_host (f_lib_globals False) (str ''f'') = False"
proof -
  have 1: "exemptionLists (f_lib_globals False) (str ''f'') = Some [str ''lib'']"
    by code_simp
  have 2: "[str ''lib''] \<noteq> []" by simp
  have 3: "Error_stack_lines no_stack_host = Inl (Thrown ''stack'')"
    by (simp add: no_stack_host_def literal_host_def)
  have 4: "scan_stack no_match_host (f_lib_globals False) (str ''f'') = Inl (Thrown ''match'')"
    by code_simp
  from 1 3 4
    shouldExemptMethod_swallows [OF 1 2, of no_stack_host "Thrown ''stack''"]
    shouldExemptMethod_swallows [OF 1 2, of no_match_host "Thrown ''match''"]
  show ?thesis by simp
qed


section \<open>The handler of DDGProxy: routing\<close>

text \<open>
  C6, as the claim states it, fails when the debug flag is set and the debug message
  cannot be built: with \<open>{ f: ['lib'] }\<close> configured, a call from
  \<open>https://a.io/lib.js\<close> is exempt, but \<open>JSON.stringify\<close> throws a TypeError on the
  arguments and the handler throws it, having invoked neither the native callable
  (which would have returned 8) nor the substitute.
\<close>

theorem outputHandler_debug_counterexample:
  "debug (f_lib_globals True) \<and>
   shouldExemptMethod lib_host (f_lib_globals True) (camelFeatureName example_proxy) \<and>
   fst (Reflect_apply (example_page (\<lambda>a. Inl TypeError)) 7 []) = Inr 8 \<and>
   outputHandler lib_host (example_page (\<lambda>a. Inl TypeError)) (f_lib_globals True) example_proxy 7 []
     = (Inl TypeError, [], [])"
  by code_simp

text \<open>
  C6, amended: for every invocation of the handler in which the debug flag is off, or
  the debug message is built and posted without an exception: when the exemption check
  answers true, the call goes to the native callable, whose result (a value or an
  exception) is the handler's, and the substitute is not invoked; when it answers
  false, the call goes to the substitute, whose result is the handler's, and the native
  callable is not invoked.
\<close>

theorem outputHandler_routing:
  assumes "\<not> debug g \<or> fst (report pg px (shouldExemptMethod h g (camelFeatureName px)) args w) = None"
    and "wd = (if debug g then snd (report pg px (shouldExemptMethod h g (camelFeatureName px)) args w) else w)"
  shows "(shouldExemptMethod h g (camelFeatureName px) \<longrightarrow>
            outputHandler h pg g px args w =
              (fst (Reflect_apply pg args wd), snd (Reflect_apply pg args wd), [Native])) \<and>
         (\<not> shouldExemptMethod h g (camelFeatureName px) \<longrightarrow>
            outputHandler h pg g px args w =
              (fst (proxyObject_apply px args wd), snd (proxyObject_apply px args wd), [Substitute]))"
proof (cases "debug g")
  case False
  with assms(2) show ?thesis by (simp add: outputHandler_def)
next
  case True
  with assms(1) have n: "fst (report pg px (shouldExemptMethod h g (camelFeatureName px)) args w) = None"
    by simp
  from True assms(2) have w: "snd (report pg px (shouldExemptMethod h g (camelFeatureName px)) args w) = wd"
    by simp
  from n w have r: "report pg px (shouldExemptMethod h g (camelFeatureName px)) args w = (None, wd)"
    by (simp add: prod_eq_iff)
  show ?thesis
  proof (cases "shouldExemptMethod h g (camelFeatureName px)")
    case True
    with r \<open>debug g\<close> show ?thesis by (simp add: outputHandler_def)
  next
    case False
    with r \<open>debug g\<close> show ?thesis by (simp add: outputHandler_def)
  qed
qed

theorem outputHandler_routing_witness:
  "\<not> debug (f_lib_globals False) \<and>
   shouldExemptMethod lib_host (f_lib_globals False) (camelFeatureName example_proxy) \<and>
   outputHandler lib_host (example_page (\<lambda>a. Inr None)) (f_lib_globals False) example_proxy 7 []
     = (Inr 8, [], [Native]) \<and>
   debug (f_lib_globals True) \<and>
   fst (report (example_page (\<lambda>a. Inr None)) example_proxy False 7 []) = None \<and>
   \<not> shouldExemptMethod no_stack_host (f_lib_globals True) (camelFeatureName example_proxy) \<and>
   fst (outputHandler no_stack_host (example_page (\<lambda>a. Inr None)) (f_lib_globals True) example_proxy 7 [])
     = Inr 0 \<and>
   snd (snd (outputHandler no_stack_host (example_page (\<lambda>a. Inr None)) (f_lib_globals True) example_proxy 7 []))
     = [Substitute]"
proof -
  have 1: "\<not> debug (f_lib_globals False)" by code_simp
  have 2: "shouldExemptMethod lib_host (f_lib_globals False) (camelFeatureName example_proxy)"
    by code_simp
  have 3: "debug (f_lib_globals True)" by code_simp
  have 4: "\<not> shouldExemptMethod no_stack_host (f_lib_globals True) (camelFeatureName example_proxy)"
    by code_simp
  have 5: "fst (report (example_page (\<lambda>a. Inr None)) example_proxy False 7 []) = None"
    by code_simp
  have 6: "fst (Reflect_apply (example_page (\<lambda>a. Inr None)) 7 []) = Inr 8 \<and>
           snd (Reflect_apply (example_page (\<lambda>a. Inr None)) 7 []) = []"
    by (simp add: example_page_def)
  have 7: "fst (proxyObject_apply example_proxy 7 w) = Inr 0" for w
    by (simp add: example_proxy_def)
  from 1 2 3 4 5 6 7
    outputHandler_routing [where g = "f_lib_globals False" and h = lib_host and px = example_proxy
      and pg = "example_page (\<lambda>a. Inr None)" and args = 7 and w = "[]" and wd = "[]"]
    outputHandler_routing [where g = "f_lib_globals True" and h = no_stack_host and px = example_proxy
      and pg = "example_page (\<lambda>a. Inr None)" and args = 7 and w = "[]"
      and wd = "snd (report (example_page (\<lambda>a. Inr None)) example_proxy False 7 [])"]
  show ?thesis by simp
qed

section \<open>overrideProperty: the missing marker is undefined\<close>

text \<open>
  C8: when \<open>origValue\<close> is \<open>null\<close>, or any value other than \<open>undefined\<close>,
  \<open>overrideProperty\<close> calls \<open>defineProperty\<close> once, with a getter that returns
  \<open>targetValue\<close>, so that the object is the one \<open>defineProperty\<close> produces (the object
  stays as it was if that call throws, and the exception is dropped), and returns
  \<open>origValue\<close>. Only when \<open>origValue\<close> is \<open>undefined\<close> is no call made.
\<close>

theorem overrideProperty_undefined_only:
  "(origValue p = JsNull \<or> origValue p \<noteq> JsUndefined \<longrightarrow>
      fst (overrideProperty oh name p) = origValue p \<and>
      snd (snd (overrideProperty oh name p)) = [(name, Getter (targetValue p))] \<and>
      (\<forall>obj'. defineProperty oh (object p) name (Getter (targetValue p)) = Inr obj' \<longrightarrow>
             fst (snd (overrideProperty oh name p)) = obj') \<and>
      (\<forall>e. defineProperty oh (object p) name (Getter (targetValue p)) = Inl e \<longrightarrow>
             fst (snd (overrideProperty oh name p)) = object p)) \<and>
   (origValue p = JsUndefined \<longrightarrow>
      overrideProperty oh name p = (JsUndefined, object p, []))"
  by (auto simp: overrideProperty_def split: sum.splits)

theorem overrideProperty_undefined_only_witness:
  "fst (overrideProperty simple_host (str ''x'')
          \<lparr>object = [str ''x'' \<mapsto> (True, Data JsNull)], origValue = JsNull, targetValue = JsValue (5 :: nat)\<rparr>)
     = JsNull \<and>
   read_property (fst (snd (overrideProperty simple_host (str ''x'')
          \<lparr>object = [str ''x'' \<mapsto> (True, Data JsNull)], origValue = JsNull, targetValue = JsValue (5 :: nat)\<rparr>)))
       (str ''x'') = JsValue 5 \<and>
   read_property (fst (snd (overrideProperty simple_host (str ''x'')
          \<lparr>object = Map.empty, origValue = JsUndefined, targetValue = JsValue (5 :: nat)\<rparr>)))
       (str ''x'') = JsUndefined"
proof -
  let ?p = "\<lparr>object = [str ''x'' \<mapsto> (True, Data JsNull)], origValue = JsNull, targetValue = JsValue (5 :: nat)\<rparr>"
  let ?q = "\<lparr>object = (Map.empty :: nat simple_object), origValue = JsUndefined, targetValue = JsValue (5 :: nat)\<rparr>"
  have d: "defineProperty simple_host (object ?p) (str ''x'') (Getter (targetValue ?p))
             = Inr [str ''x'' \<mapsto> (True, Accessor (JsValue 5))]"
    by (simp add: defineProperty_def simple_host_def simple_defineProperty_def)
  have r: "read_property [str ''x'' \<mapsto> (True, Accessor (JsValue (5 :: nat)))] (str ''x'') = JsValue 5"
    by (simp add: read_property_def)
  have e: "read_property (Map.empty :: nat simple_object) (str ''x'') = JsUndefined"
    by (simp add: read_property_def)
  from d r e
    overrideProperty_undefined_only [of ?p simple_host "str ''x''"]
    overrideProperty_undefined_only [of ?q simple_host "str ''x''"]
  show ?thesis by simp
qed

section \<open>getDataKeySync: a fixed lowercase hexadecimal string\<close>

lemma hex_digit_lowercase: "n < 16 \<Longrightarrow> lowercase_hex (hex_digit n)"
proof -
  assume n: "n < 16"
  have "list_all (\<lambda>n. lowercase_hex (hex_digit n)) [0..<16]"
    by code_simp
  with n show ?thesis by (simp add: list_all_iff)
qed

lemma nibble_less_16: "unat ((w :: 256 word) AND 15) < 16"
proof -
  have "unat (w AND 15) \<le> unat (15 :: 256 word)"
    by (rule word_and_le1 [THEN word_le_nat_alt [THEN iffD1]])
  then show ?thesis by simp
qed

lemma hex_fromBits_shape: "length (hex_fromBits w) = 64 \<and> list_all lowercase_hex (hex_fromBits w)"
  by (simp add: hex_fromBits_def list_all_iff hex_digit_lowercase nibble_less_16)

text \<open>
  C7: \<open>getDataKeySync\<close> is a function of the session key, the domain key and the
  input: two calls with the same three give the same string, and the string is 64
  lowercase hexadecimal digits.
\<close>

theorem getDataKeySync_deterministic_hex:
  assumes "sessionKey' = sessionKey" and "domainKey' = domainKey" and "inputData' = inputData"
  shows "getDataKeySync lib sessionKey' domainKey' inputData' = getDataKeySync lib sessionKey domainKey inputData \<and>
         length (getDataKeySync lib sessionKey domainKey inputData) = 64 \<and>
         list_all lowercase_hex (getDataKeySync lib sessionKey domainKey inputData)"
  using assms hex_fromBits_shape by (simp add: getDataKeySync_def)

theorem getDataKeySync_deterministic_hex_witness:
  "length (getDataKeySync example_sjcl (str ''s1'') (str ''d1'') (Num 1)) = 64 \<and>
   list_all lowercase_hex (getDataKeySync example_sjcl (str ''s1'') (str ''d1'') (Num 1)) \<and>
   getDataKeySync example_sjcl (str ''s1'') (str ''d1'') (Num 1) \<noteq>
     getDataKeySync example_sjcl (str ''s1'') (str ''d1'') (Num 2)"
proof -
  have "getDataKeySync example_sjcl (str ''s1'') (str ''d1'') (Num 1) \<noteq>
     getDataKeySync example_sjcl (str ''s1'') (str ''d1'') (Num 2)"
    by code_simp
  with getDataKeySync_deterministic_hex [OF refl refl refl, of example_sjcl "str ''s1''" "str ''d1''" "Num 1"]
  show ?thesis by simp
qed

end
